theory Spec2Isabelle
  imports Main
begin

section \<open>The yacht club problem: the constraint model of yachtclub.py\<close>

subsection \<open>Problem instance (lines 21--32)\<close>

text \<open>
  The script fixes \<open>n_boats\<close> and \<open>available_halfhours\<close> and draws the arrays
  \<open>crew_size\<close> and \<open>capacity\<close>, each of length \<open>n_boats\<close>. The model below takes
  the four of them as parameters. Array entries are Python integers.
\<close>

record problem_instance =
  n_boats :: nat
  available_halfhours :: nat
  crew_size :: "int list"
  capacity :: "int list"

text \<open>Both arrays are built with \<open>n_boats\<close> entries (lines 29 and 31).\<close>

definition well_formed :: "problem_instance \<Rightarrow> bool" where
  "well_formed p \<longleftrightarrow>
     length (crew_size p) = n_boats p \<and> length (capacity p) = n_boats p"

subsection \<open>Decision variables (lines 36 and 40)\<close>

text \<open>
  \<open>boats\<close> is a Boolean array of shape
  \<open>(available_halfhours, n_boats, n_boats)\<close>, with \<open>boats[t, i, j]\<close> true when boat
  \<open>i\<close> visits boat \<open>j\<close> in period \<open>t\<close>; \<open>hosts\<close> is a Boolean array of length
  \<open>n_boats\<close>. An assignment gives every variable a value.
\<close>

record assignment =
  hosts :: "bool list"
  boats :: "bool list list list"

definition shaped :: "problem_instance \<Rightarrow> assignment \<Rightarrow> bool" where
  "shaped p a \<longleftrightarrow>
     length (hosts a) = n_boats p \<and>
     length (boats a) = available_halfhours p \<and>
     (\<forall>m \<in> set (boats a). length m = n_boats p \<and>
        (\<forall>r \<in> set m. length r = n_boats p))"

text \<open>A Boolean variable inside an arithmetic expression counts as 0 or 1.\<close>

definition visit :: "assignment \<Rightarrow> nat \<Rightarrow> nat \<Rightarrow> nat \<Rightarrow> int" where
  "visit a t i j = of_bool (boats a ! t ! i ! j)"

definition host :: "assignment \<Rightarrow> nat \<Rightarrow> bool" where
  "host a b = hosts a ! b"

subsection \<open>Constraints (lines 45--100)\<close>

text \<open>C1: capacity limits and no self-visits (lines 47--52).\<close>

definition c1_capacity :: "problem_instance \<Rightarrow> assignment \<Rightarrow> bool" where
  "c1_capacity p a \<longleftrightarrow>
     (\<forall>t \<in> {..<available_halfhours p}. \<forall>b \<in> {..<n_boats p}.
        (\<Sum>i<n_boats p. visit a t i b * crew_size p ! i) + crew_size p ! b
          \<le> capacity p ! b
        \<and> visit a t b b = 0)"

text \<open>C2: hosts must have guests, and non-hosts cannot have guests (lines 55--59).\<close>

definition c2_hosts_have_guests :: "problem_instance \<Rightarrow> assignment \<Rightarrow> bool" where
  "c2_hosts_have_guests p a \<longleftrightarrow>
     (\<forall>b \<in> {..<n_boats p}.
        (host a b \<longrightarrow>
           (\<Sum>t<available_halfhours p. \<Sum>i<n_boats p. visit a t i b) > 0) \<and>
        (\<not> host a b \<longrightarrow>
           (\<Sum>t<available_halfhours p. \<Sum>i<n_boats p. visit a t i b) = 0))"

text \<open>C3: hosts cannot visit other boats (lines 62--63).\<close>

definition c3_hosts_stay :: "problem_instance \<Rightarrow> assignment \<Rightarrow> bool" where
  "c3_hosts_stay p a \<longleftrightarrow>
     (\<forall>b \<in> {..<n_boats p}.
        host a b \<longrightarrow>
          (\<Sum>t<available_halfhours p. \<Sum>j<n_boats p. visit a t b j) = 0)"

text \<open>C4: guests must visit at least one host (lines 66--67).\<close>

definition c4_guests_visit :: "problem_instance \<Rightarrow> assignment \<Rightarrow> bool" where
  "c4_guests_visit p a \<longleftrightarrow>
     (\<forall>b \<in> {..<n_boats p}.
        \<not> host a b \<longrightarrow>
          (\<Sum>t<available_halfhours p. \<Sum>j<n_boats p. visit a t b j) > 0)"

text \<open>C5: each guest visits a host exactly once (lines 71--74).\<close>

definition c5_exactly_once :: "problem_instance \<Rightarrow> assignment \<Rightarrow> bool" where
  "c5_exactly_once p a \<longleftrightarrow>
     (\<forall>i \<in> {..<n_boats p}. \<forall>j \<in> {..<n_boats p}.
        i \<noteq> j \<longrightarrow>
          (\<not> host a i \<and> host a j \<longrightarrow>
             (\<Sum>t<available_halfhours p. visit a t i j) = 1))"

text \<open>C6: each guest can visit only one boat per time slot (lines 77--79).\<close>

definition c6_one_per_slot :: "problem_instance \<Rightarrow> assignment \<Rightarrow> bool" where
  "c6_one_per_slot p a \<longleftrightarrow>
     (\<forall>ah \<in> {..<available_halfhours p}. \<forall>i \<in> {..<n_boats p}.
        \<not> host a i \<longrightarrow> (\<Sum>j<n_boats p. visit a ah i j) \<le> 1)"

text \<open>
  C7: guest boats should not meet another guest boat more than once
  (lines 83--94); \<open>k\<close> ranges over \<open>range(i + 1, n_boats)\<close>.
\<close>

definition c7_meet_once :: "problem_instance \<Rightarrow> assignment \<Rightarrow> bool" where
  "c7_meet_once p a \<longleftrightarrow>
     (\<forall>i \<in> {..<n_boats p}. \<forall>k \<in> {i + 1..<n_boats p}.
        \<not> host a i \<and> \<not> host a k \<longrightarrow>
          (\<Sum>t<available_halfhours p. \<Sum>h<n_boats p.
             visit a t i h * visit a t k h) \<le> 1)"

text \<open>C8: at least one host (line 97). C9: not all boats are hosts (line 100).\<close>

definition c8_some_host :: "assignment \<Rightarrow> bool" where
  "c8_some_host a \<longleftrightarrow> (\<Sum>h\<leftarrow>hosts a. of_bool h) > (0::int)"

definition c9_not_all_hosts :: "problem_instance \<Rightarrow> assignment \<Rightarrow> bool" where
  "c9_not_all_hosts p a \<longleftrightarrow> (\<Sum>h\<leftarrow>hosts a. of_bool h) < int (n_boats p)"

text \<open>
  An accepted assignment gives a value to every variable of the two arrays and
  satisfies every constraint added to the model.
\<close>

definition accepted :: "problem_instance \<Rightarrow> assignment \<Rightarrow> bool" where
  "accepted p a \<longleftrightarrow>
     shaped p a \<and> c1_capacity p a \<and> c2_hosts_have_guests p a \<and> c3_hosts_stay p a \<and>
     c4_guests_visit p a \<and> c5_exactly_once p a \<and> c6_one_per_slot p a \<and>
     c7_meet_once p a \<and> c8_some_host a \<and> c9_not_all_hosts p a"

subsection \<open>Model construction (lines 36--105)\<close>

text \<open>
  The script checks nothing about the instance itself, but \<open>cp.boolvar\<close> treats
  two integer shapes specially: \<open>cp.boolvar(0)\<close> raises \<open>NullShapeError\<close>, and
  \<open>cp.boolvar(1)\<close> gives a single variable instead of an array of one. The
  shape of \<open>boats\<close> at line 36 is a tuple, for which an array is always made;
  the shape of \<open>hosts\<close> at line 40 is the integer \<open>n_boats\<close>.
\<close>

datatype error = NullShapeError | TypeError

datatype variables = Single_variable | Variable_array nat

definition boolvar :: "nat \<Rightarrow> error + variables" where
  "boolvar shape =
     (if shape = 0 then Inl NullShapeError
      else if shape = 1 then Inr Single_variable
      else Inr (Variable_array shape))"

text \<open>
  With no boat, line 40 raises. With one boat, \<open>hosts\<close> is a single variable
  and the first \<open>hosts[b]\<close>, at line 57, raises \<open>TypeError\<close>. Otherwise every
  line up to 105 runs, and the model holds the constraints of \<open>accepted\<close> and
  the objective.
\<close>

definition model_construction :: "problem_instance \<Rightarrow> error + unit" where
  "model_construction p =
     (case boolvar (n_boats p) of
        Inl e \<Rightarrow> Inl e
      | Inr Single_variable \<Rightarrow> Inl TypeError
      | Inr (Variable_array n) \<Rightarrow> Inr ())"

subsection \<open>Objective and solve (lines 105--162)\<close>

text \<open>Line 105: the objective is the number of guests, \<open>cp.sum(~hosts)\<close>.\<close>

definition objective :: "assignment \<Rightarrow> int" where
  "objective a = (\<Sum>h\<leftarrow>hosts a. of_bool (\<not> h))"

text \<open>
  An array of \<open>n\<close> Boolean variables can take as value every Boolean array of
  length \<open>n\<close>.
\<close>

definition bool_arrays :: "nat \<Rightarrow> bool list list" where
  "bool_arrays n = List.n_lists n [False, True]"

definition candidates :: "problem_instance \<Rightarrow> assignment list" where
  "candidates p =
     [\<lparr>hosts = h, boats = v\<rparr>.
        h \<leftarrow> bool_arrays (n_boats p),
        v \<leftarrow> List.n_lists (available_halfhours p)
              (List.n_lists (n_boats p) (bool_arrays (n_boats p)))]"

text \<open>
  \<open>model.solve()\<close> on a model with a \<open>maximize\<close> objective answers false when no
  assignment satisfies the constraints, and otherwise leaves in the variables
  an assignment of greatest objective value. The search itself belongs to the
  solver library; it is modelled as exhaustive search over the finite space of
  assignments, keeping the first assignment found at the best value.
\<close>

definition maximize :: "('a \<Rightarrow> int) \<Rightarrow> 'a list \<Rightarrow> 'a option" where
  "maximize f xs =
     (case xs of
        [] \<Rightarrow> None
      | x # ys \<Rightarrow> Some (fold (\<lambda>a best. if f best < f a then a else best) ys x))"

definition solve :: "problem_instance \<Rightarrow> assignment option" where
  "solve p = maximize objective (filter (accepted p) (candidates p))"

text \<open>
  The whole script: an error raised while the model is built ends the run
  before line 109; otherwise the solve is called and one of the two branches of
  line 109 is taken, a solution is printed or \<open>No solution (UNSAT)\<close>.
\<close>

datatype outcome = Solution_found assignment | No_solution

definition yachtclub :: "problem_instance \<Rightarrow> error + outcome" where
  "yachtclub p =
     (case model_construction p of
        Inl e \<Rightarrow> Inl e
      | Inr _ \<Rightarrow>
          Inr (case solve p of Some a \<Rightarrow> Solution_found a | None \<Rightarrow> No_solution))"

subsection \<open>Example instances\<close>

text \<open>
  Two boats with crews of 5: boat 0 holds 20 people, boat 1 only its own crew.
  Boat 0 hosts and boat 1 visits it in the single period.
\<close>

definition two_boats :: problem_instance where
  "two_boats = \<lparr>n_boats = 2, available_halfhours = 1, crew_size = [5, 5], capacity = [20, 5]\<rparr>"

definition two_boats_schedule :: assignment where
  "two_boats_schedule = \<lparr>hosts = [True, False], boats = [[[False, False], [True, False]]]\<rparr>"

text \<open>Three boats with crews of 5 and capacities 20, 5, 5: boats 1 and 2 visit boat 0.\<close>

definition three_boats :: problem_instance where
  "three_boats =
     \<lparr>n_boats = 3, available_halfhours = 1, crew_size = [5, 5, 5], capacity = [20, 5, 5]\<rparr>"

definition three_boats_schedule :: assignment where
  "three_boats_schedule =
     \<lparr>hosts = [True, False, False],
      boats = [[[False, False, False], [True, False, False], [True, False, False]]]\<rparr>"


text \<open>Two boats, neither of which can hold both crews.\<close>

definition two_small_boats :: problem_instance where
  "two_small_boats =
     \<lparr>n_boats = 2, available_halfhours = 1, crew_size = [5, 5], capacity = [9, 9]\<rparr>"




section \<open>Auxiliary facts\<close>

subsection \<open>Sums of Boolean variables\<close>

lemma sum_int_pos_iff:
  fixes f :: "'a \<Rightarrow> int"
  assumes "finite A" "\<And>x. x \<in> A \<Longrightarrow> 0 \<le> f x"
  shows "(0 < sum f A) \<longleftrightarrow> (\<exists>x\<in>A. 0 < f x)"
proof -
  have "0 \<le> sum f A" using assms(2) by (simp add: sum_nonneg)
  moreover have "(sum f A = 0) \<longleftrightarrow> (\<forall>x\<in>A. f x = 0)"
    using assms by (simp add: sum_nonneg_eq_0_iff)
  ultimately show ?thesis using assms(2) by (metis less_le)
qed

lemma visit_nonneg: "0 \<le> visit a t i j"
  by (simp add: visit_def)

lemma visit_pos_iff: "0 < visit a t i j \<longleftrightarrow> boats a ! t ! i ! j"
  by (simp add: visit_def)

lemma visit_zero_iff: "visit a t i j = 0 \<longleftrightarrow> \<not> boats a ! t ! i ! j"
  by (simp add: visit_def)

lemma received_pos_iff:
  "(0 < (\<Sum>t<T. \<Sum>i<n. visit a t i b)) \<longleftrightarrow> (\<exists>t<T. \<exists>i<n. boats a ! t ! i ! b)"
  by (simp add: sum_int_pos_iff sum_nonneg visit_nonneg visit_pos_iff Bex_def)

lemma received_zero_iff:
  "((\<Sum>t<T. \<Sum>i<n. visit a t i b) = 0) \<longleftrightarrow> (\<forall>t<T. \<forall>i<n. \<not> boats a ! t ! i ! b)"
  by (auto simp: sum_nonneg_eq_0_iff sum_nonneg visit_nonneg visit_zero_iff)

lemma made_pos_iff:
  "(0 < (\<Sum>t<T. \<Sum>j<n. visit a t b j)) \<longleftrightarrow> (\<exists>t<T. \<exists>j<n. boats a ! t ! b ! j)"
  by (simp add: sum_int_pos_iff sum_nonneg visit_nonneg visit_pos_iff Bex_def)

lemma made_zero_iff:
  "((\<Sum>t<T. \<Sum>j<n. visit a t b j) = 0) \<longleftrightarrow> (\<forall>t<T. \<forall>j<n. \<not> boats a ! t ! b ! j)"
  by (auto simp: sum_nonneg_eq_0_iff sum_nonneg visit_nonneg visit_zero_iff)

lemma count_true: "(\<Sum>h\<leftarrow>xs. of_bool h) = int (card {b. b < length xs \<and> xs ! b})"
proof -
  have "(\<Sum>h\<leftarrow>xs. of_bool h) = int (length (filter (\<lambda>h. h) xs))"
    by (induction xs) simp_all
  then show ?thesis by (simp add: length_filter_conv_card)
qed

lemma count_false: "(\<Sum>h\<leftarrow>xs. of_bool (\<not> h)) = int (card {b. b < length xs \<and> \<not> xs ! b})"
proof -
  have "(\<Sum>h\<leftarrow>xs. of_bool (\<not> h)) = int (length (filter (\<lambda>h. \<not> h) xs))"
    by (induction xs) simp_all
  then show ?thesis by (simp add: length_filter_conv_card)
qed

lemma meetings_card:
  "(\<Sum>t<T. \<Sum>h<n. visit a t i h * visit a t k h) =
     int (card {(t, h). t < T \<and> h < n \<and> boats a ! t ! i ! h \<and> boats a ! t ! k ! h})"
proof -
  let ?Q = "\<lambda>t h. boats a ! t ! i ! h \<and> boats a ! t ! k ! h"
  have "(\<Sum>t<T. \<Sum>h<n. visit a t i h * visit a t k h) = (\<Sum>t<T. \<Sum>h<n. of_bool (?Q t h))"
    by (simp only: visit_def of_bool_conj [symmetric])
  also have "\<dots> = (\<Sum>(t, h)\<in>{..<T} \<times> {..<n}. of_bool (?Q t h))"
    by (simp only: sum.cartesian_product)
  also have "\<dots> = (\<Sum>x\<in>{..<T} \<times> {..<n}. of_bool (?Q (fst x) (snd x)))"
    by (rule sum.cong) auto
  also have "\<dots> = int (card (({..<T} \<times> {..<n}) \<inter> {x. ?Q (fst x) (snd x)}))"
    by simp
  also have "({..<T} \<times> {..<n}) \<inter> {x. ?Q (fst x) (snd x)}
      = {(t, h). t < T \<and> h < n \<and> ?Q t h}"
    by auto
  finally show ?thesis .
qed

subsection \<open>The example schedules are accepted\<close>

lemmas constraint_defs =
  shaped_def c1_capacity_def c2_hosts_have_guests_def c3_hosts_stay_def c4_guests_visit_def
  c5_exactly_once_def c6_one_per_slot_def c7_meet_once_def c8_some_host_def
  c9_not_all_hosts_def host_def visit_def

lemma two_boats_accepted: "accepted two_boats two_boats_schedule"
  unfolding accepted_def two_boats_def two_boats_schedule_def
  by (simp add: constraint_defs lessThan_nat_numeral lessThan_Suc)

lemma three_boats_accepted: "accepted three_boats three_boats_schedule"
  unfolding accepted_def three_boats_def three_boats_schedule_def
  by (simp add: constraint_defs lessThan_nat_numeral lessThan_Suc atLeastLessThanSuc
       atLeastLessThan_nat_numeral)

subsection \<open>The search space and the solve\<close>

lemma set_bool_arrays: "set (bool_arrays n) = {h. length h = n}"
  by (auto simp: bool_arrays_def set_n_lists)

lemma set_candidates: "set (candidates p) = {a. shaped p a}"
proof (rule set_eqI)
  fix a :: assignment
  obtain h v where a: "a = \<lparr>hosts = h, boats = v\<rparr>" by (cases a) simp
  have "a \<in> set (candidates p) \<longleftrightarrow>
          h \<in> set (bool_arrays (n_boats p)) \<and>
          v \<in> set (List.n_lists (available_halfhours p)
                           (List.n_lists (n_boats p) (bool_arrays (n_boats p))))"
    by (auto simp: candidates_def a)
  also have "\<dots> \<longleftrightarrow> shaped p a"
    by (auto simp: set_n_lists set_bool_arrays shaped_def a)
  finally show "a \<in> set (candidates p) \<longleftrightarrow> a \<in> {a. shaped p a}" by simp
qed

lemma fold_best:
  fixes f :: "'a \<Rightarrow> int"
  shows "fold (\<lambda>a best. if f best < f a then a else best) ys x \<in> set (x # ys) \<and>
         (\<forall>y\<in>set (x # ys). f y \<le> f (fold (\<lambda>a best. if f best < f a then a else best) ys x))"
proof (induction ys arbitrary: x)
  case Nil
  show ?case by simp
next
  case (Cons y ys)
  let ?x = "if f x < f y then y else x"
  from Cons.IH [of ?x] show ?case by (auto split: if_splits)
qed

lemma maximize_None_iff: "maximize f xs = None \<longleftrightarrow> xs = []"
  by (simp add: maximize_def split: list.splits)

lemma maximize_Some:
  assumes "maximize f xs = Some y"
  shows "y \<in> set xs" and "\<And>x. x \<in> set xs \<Longrightarrow> f x \<le> f y"
  using assms fold_best [of f]
  by (auto simp: maximize_def split: list.splits)

lemma solve_None_iff: "solve p = None \<longleftrightarrow> (\<forall>a. \<not> accepted p a)"
proof -
  have "solve p = None \<longleftrightarrow> (\<forall>a\<in>set (candidates p). \<not> accepted p a)"
    by (simp add: solve_def maximize_None_iff filter_empty_conv)
  also have "\<dots> \<longleftrightarrow> (\<forall>a. \<not> accepted p a)"
    by (auto simp: set_candidates accepted_def)
  finally show ?thesis .
qed

lemma solve_Some:
  assumes "solve p = Some a"
  shows "accepted p a" and "\<And>a'. accepted p a' \<Longrightarrow> objective a' \<le> objective a"
proof -
  from assms have m: "maximize objective (filter (accepted p) (candidates p)) = Some a"
    by (simp add: solve_def)
  from maximize_Some(1) [OF m] show "accepted p a" by simp
  fix a' assume acc: "accepted p a'"
  then have "a' \<in> set (filter (accepted p) (candidates p))"
    by (simp add: set_candidates accepted_def)
  from maximize_Some(2) [OF m this] show "objective a' \<le> objective a" .
qed

lemma solve_feasible:
  assumes "accepted p a0"
  obtains a where "solve p = Some a"
  using assms solve_None_iff [of p] by (cases "solve p") auto

lemma objective_counts_guests:
  "shaped p a \<Longrightarrow> objective a = int (card {b. b < n_boats p \<and> \<not> host a b})"
  by (simp add: objective_def count_false shaped_def host_def)

lemma model_construction_two_boats:
  "2 \<le> n_boats p \<Longrightarrow> model_construction p = Inr ()"
  by (simp add: model_construction_def boolvar_def)



lemma yachtclub_solves:
  "2 \<le> n_boats p \<Longrightarrow>
     yachtclub p = Inr (case solve p of Some a \<Rightarrow> Solution_found a | None \<Rightarrow> No_solution)"
  by (simp add: yachtclub_def model_construction_two_boats)

lemma yachtclub_No_solution_iff:
  "2 \<le> n_boats p \<Longrightarrow> yachtclub p = Inr No_solution \<longleftrightarrow> (\<forall>a. \<not> accepted p a)"
  by (simp add: yachtclub_solves solve_None_iff [symmetric] split: option.splits)

lemma finite_accepted: "finite {a. accepted p a}"
proof -
  have "{a. accepted p a} \<subseteq> set (candidates p)"
    by (auto simp: set_candidates accepted_def)
  then show ?thesis by (rule finite_subset) simp
qed

subsection \<open>Running the search on the example instances\<close>

lemma two_boats_search:
  "filter (accepted two_boats) (candidates two_boats) = [two_boats_schedule]"
  unfolding candidates_def bool_arrays_def two_boats_def two_boats_schedule_def accepted_def
  by (simp add: eval_nat_numeral constraint_defs lessThan_Suc atLeastLessThanSuc)


lemma two_small_boats_search:
  "filter (accepted two_small_boats) (candidates two_small_boats) = []"
  unfolding candidates_def bool_arrays_def two_small_boats_def accepted_def
  by (simp add: eval_nat_numeral constraint_defs lessThan_Suc atLeastLessThanSuc)


lemma two_boats_solve: "solve two_boats = Some two_boats_schedule"
  by (simp add: solve_def maximize_def two_boats_search)

subsection \<open>Consequences of the constraints\<close>

lemma accepted_host_count:
  assumes "accepted p a"
  shows "0 < card {b. b < n_boats p \<and> host a b}"
    and "card {b. b < n_boats p \<and> host a b} < n_boats p"
proof -
  from assms have len: "length (hosts a) = n_boats p" and c8: "c8_some_host a"
    and c9: "c9_not_all_hosts p a"
    by (simp_all add: accepted_def shaped_def)
  from c8 len show "0 < card {b. b < n_boats p \<and> host a b}"
    by (simp add: c8_some_host_def count_true host_def)
  from c9 len show "card {b. b < n_boats p \<and> host a b} < n_boats p"
    by (simp add: c9_not_all_hosts_def count_true host_def)
qed

lemma accepted_some_host:
  assumes "accepted p a"
  shows "\<exists>b<n_boats p. host a b"
proof -
  from accepted_host_count(1) [OF assms] have "{b. b < n_boats p \<and> host a b} \<noteq> {}"
    by (metis card.empty less_numeral_extra(3))
  then show ?thesis by blast
qed

lemma accepted_some_guest:
  assumes "accepted p a"
  shows "\<exists>b<n_boats p. \<not> host a b"
proof (rule ccontr)
  assume "\<not> (\<exists>b<n_boats p. \<not> host a b)"
  then have "{b. b < n_boats p \<and> host a b} = {..<n_boats p}" by auto
  with accepted_host_count(2) [OF assms] show False by simp
qed

lemma accepted_pair_visit:
  assumes "accepted p a" and "i < n_boats p" and "j < n_boats p" and "i \<noteq> j"
    and "\<not> host a i" and "host a j"
  shows "\<exists>t<available_halfhours p. boats a ! t ! i ! j"
proof -
  from assms have "(\<Sum>t<available_halfhours p. visit a t i j) = 1"
    by (simp add: accepted_def c5_exactly_once_def)
  then have "0 < (\<Sum>t<available_halfhours p. visit a t i j)" by simp
  then show ?thesis
    by (simp add: sum_int_pos_iff visit_nonneg visit_pos_iff Bex_def)
qed

lemma accepted_capacity:
  assumes "accepted p a" and "t < available_halfhours p" and "b < n_boats p"
  shows "(\<Sum>i<n_boats p. visit a t i b * crew_size p ! i) + crew_size p ! b \<le> capacity p ! b"
    and "\<not> boats a ! t ! b ! b"
  using assms by (simp_all add: accepted_def c1_capacity_def visit_zero_iff)



lemma accepted_capacity_mono:
  assumes "accepted p a" and "capacity p ! b \<le> c"
  shows "accepted (p\<lparr>capacity := (capacity p)[b := c]\<rparr>) a"
proof -
  have le: "capacity p ! x \<le> (capacity p)[b := c] ! x" for x
  proof (cases "x = b \<and> b < length (capacity p)")
    case True
    with assms(2) show ?thesis by simp
  next
    case False
    then show ?thesis by (cases "x = b") (simp_all add: list_update_beyond)
  qed
  from assms(1) have "c1_capacity p a" by (simp add: accepted_def)
  then have "c1_capacity (p\<lparr>capacity := (capacity p)[b := c]\<rparr>) a"
    unfolding c1_capacity_def using le by (auto intro: order_trans)
  with assms(1) show ?thesis
    by (simp add: accepted_def constraint_defs)
qed

section \<open>Properties of accepted assignments\<close>

text \<open>
  Claim C1. In an accepted assignment, for boats \<open>i \<noteq> j\<close> where \<open>i\<close> is not a host
  and \<open>j\<close> is a host, the visit variables \<open>boats[t, i, j]\<close> summed over all periods
  give exactly 1: every guest visits every host exactly once.
\<close>

theorem guest_visits_each_host_exactly_once:
  assumes "accepted p a" and "i < n_boats p" and "j < n_boats p" and "i \<noteq> j"
    and "\<not> host a i" and "host a j"
  shows "(\<Sum>t<available_halfhours p. visit a t i j) = 1"
  using assms by (simp add: accepted_def c5_exactly_once_def)

theorem guest_visits_each_host_exactly_once_witness:
  "(\<Sum>t<available_halfhours two_boats. visit two_boats_schedule t 1 0) = 1"
  by (rule guest_visits_each_host_exactly_once [OF two_boats_accepted])
     (simp_all add: two_boats_def two_boats_schedule_def host_def)

text \<open>
  Claim C2. In an accepted assignment, in every period \<open>t\<close> and for every boat \<open>b\<close>,
  the crew of \<open>b\<close> plus the crews of all boats visiting \<open>b\<close> in \<open>t\<close> fit into the
  capacity of \<open>b\<close>, and \<open>b\<close> does not visit itself.
\<close>

theorem capacity_respected:
  assumes "accepted p a" and "t < available_halfhours p" and "b < n_boats p"
  shows "crew_size p ! b + (\<Sum>i<n_boats p. visit a t i b * crew_size p ! i) \<le> capacity p ! b
         \<and> \<not> boats a ! t ! b ! b"
proof -
  from assms have "(\<Sum>i<n_boats p. visit a t i b * crew_size p ! i) + crew_size p ! b
      \<le> capacity p ! b \<and> visit a t b b = 0"
    by (simp add: accepted_def c1_capacity_def)
  then show ?thesis by (simp add: visit_zero_iff add.commute)
qed

theorem capacity_respected_witness:
  "crew_size two_boats ! 0 +
     (\<Sum>i<n_boats two_boats. visit two_boats_schedule 0 i 0 * crew_size two_boats ! i)
       \<le> capacity two_boats ! 0
   \<and> \<not> boats two_boats_schedule ! 0 ! 0 ! 0"
  by (rule capacity_respected [OF two_boats_accepted]) (simp_all add: two_boats_def)

text \<open>
  Claim C3. In an accepted assignment roles and visits are coupled: a host
  receives at least one visit over the schedule and makes no visit in any
  period; a boat that is not a host receives no visit in any period and makes at
  least one visit over the schedule.
\<close>

theorem roles_coupled_with_visits:
  assumes "accepted p a" and "b < n_boats p"
  shows "(host a b \<longrightarrow>
            (\<exists>t<available_halfhours p. \<exists>i<n_boats p. boats a ! t ! i ! b) \<and>
            (\<forall>t<available_halfhours p. \<forall>j<n_boats p. \<not> boats a ! t ! b ! j)) \<and>
         (\<not> host a b \<longrightarrow>
            (\<forall>t<available_halfhours p. \<forall>i<n_boats p. \<not> boats a ! t ! i ! b) \<and>
            (\<exists>t<available_halfhours p. \<exists>j<n_boats p. boats a ! t ! b ! j))"
proof -
  from assms have c2: "c2_hosts_have_guests p a" and c3: "c3_hosts_stay p a"
    and c4: "c4_guests_visit p a"
    by (simp_all add: accepted_def)
  from c2 assms(2) have "host a b \<Longrightarrow>
      \<exists>t<available_halfhours p. \<exists>i<n_boats p. boats a ! t ! i ! b"
    by (simp add: c2_hosts_have_guests_def received_pos_iff)
  moreover from c3 assms(2) have "host a b \<Longrightarrow>
      \<forall>t<available_halfhours p. \<forall>j<n_boats p. \<not> boats a ! t ! b ! j"
    by (simp add: c3_hosts_stay_def made_zero_iff)
  moreover from c2 assms(2) have "\<not> host a b \<Longrightarrow>
      \<forall>t<available_halfhours p. \<forall>i<n_boats p. \<not> boats a ! t ! i ! b"
    by (simp add: c2_hosts_have_guests_def received_zero_iff)
  moreover from c4 assms(2) have "\<not> host a b \<Longrightarrow>
      \<exists>t<available_halfhours p. \<exists>j<n_boats p. boats a ! t ! b ! j"
    by (simp add: c4_guests_visit_def made_pos_iff)
  ultimately show ?thesis by blast
qed

theorem roles_coupled_with_visits_witness:
  "host two_boats_schedule 0 \<and> boats two_boats_schedule ! 0 ! 1 ! 0 \<and>
   \<not> boats two_boats_schedule ! 0 ! 0 ! 1 \<and>
   \<not> host two_boats_schedule 1 \<and>
   (\<exists>t<available_halfhours two_boats. \<exists>j<n_boats two_boats. boats two_boats_schedule ! t ! 1 ! j)"
  using roles_coupled_with_visits [OF two_boats_accepted, of 0]
    roles_coupled_with_visits [OF two_boats_accepted, of 1]
  by (simp add: two_boats_def two_boats_schedule_def host_def)

text \<open>
  Claim C4. In an accepted assignment, two different boats that are both guests
  are together on the same boat in the same period in at most one combination
  of period and boat: two guest crews meet at most once.
\<close>

theorem guests_meet_at_most_once:
  assumes "accepted p a" and "i < n_boats p" and "k < n_boats p" and "i \<noteq> k"
    and "\<not> host a i" and "\<not> host a k"
  shows "card {(t, h). t < available_halfhours p \<and> h < n_boats p \<and>
                 boats a ! t ! i ! h \<and> boats a ! t ! k ! h} \<le> 1"
proof -
  from assms(1) have c7: "c7_meet_once p a" by (simp add: accepted_def)
  have ordered: "card {(t, h). t < available_halfhours p \<and> h < n_boats p \<and>
                 boats a ! t ! x ! h \<and> boats a ! t ! y ! h} \<le> 1"
    if "x < y" "y < n_boats p" "\<not> host a x" "\<not> host a y" for x y
  proof -
    from c7 that have "(\<Sum>t<available_halfhours p. \<Sum>h<n_boats p.
        visit a t x h * visit a t y h) \<le> 1"
      by (simp add: c7_meet_once_def)
    then show ?thesis by (simp add: meetings_card)
  qed
  show ?thesis
  proof (cases "i < k")
    case True
    from True assms(3,5,6) show ?thesis by (rule ordered)
  next
    case False
    with assms have "k < i" by simp
    from this assms(2,6,5) have "card {(t, h). t < available_halfhours p \<and> h < n_boats p \<and>
                 boats a ! t ! k ! h \<and> boats a ! t ! i ! h} \<le> 1"
      by (rule ordered)
    moreover have "{(t, h). t < available_halfhours p \<and> h < n_boats p \<and>
                 boats a ! t ! k ! h \<and> boats a ! t ! i ! h} =
        {(t, h). t < available_halfhours p \<and> h < n_boats p \<and>
                 boats a ! t ! i ! h \<and> boats a ! t ! k ! h}"
      by auto
    ultimately show ?thesis by simp
  qed
qed

theorem guests_meet_at_most_once_witness:
  "card {(t, h). t < available_halfhours three_boats \<and> h < n_boats three_boats \<and>
           boats three_boats_schedule ! t ! 2 ! h \<and> boats three_boats_schedule ! t ! 1 ! h} \<le> 1"
  by (rule guests_meet_at_most_once [OF three_boats_accepted])
     (simp_all add: three_boats_def three_boats_schedule_def host_def)

text \<open>
  Claim C5. In an accepted assignment, in every period a boat that is not a host
  visits at most one boat: the sum of its visit variables over all destinations
  is at most 1.
\<close>

theorem guest_at_one_host_per_slot:
  assumes "accepted p a" and "t < available_halfhours p" and "i < n_boats p"
    and "\<not> host a i"
  shows "(\<Sum>j<n_boats p. visit a t i j) \<le> 1 \<and>
         card {j. j < n_boats p \<and> boats a ! t ! i ! j} \<le> 1"
proof -
  from assms have le: "(\<Sum>j<n_boats p. visit a t i j) \<le> 1"
    by (simp add: accepted_def c6_one_per_slot_def)
  have "(\<Sum>j<n_boats p. visit a t i j) = int (card ({..<n_boats p} \<inter> {j. boats a ! t ! i ! j}))"
    by (simp add: visit_def)
  moreover have "{..<n_boats p} \<inter> {j. boats a ! t ! i ! j} = {j. j < n_boats p \<and> boats a ! t ! i ! j}"
    by auto
  ultimately show ?thesis using le by simp
qed

theorem guest_at_one_host_per_slot_witness:
  "(\<Sum>j<n_boats three_boats. visit three_boats_schedule 0 2 j) \<le> 1 \<and>
   card {j. j < n_boats three_boats \<and> boats three_boats_schedule ! 0 ! 2 ! j} \<le> 1"
  by (rule guest_at_one_host_per_slot [OF three_boats_accepted])
     (simp_all add: three_boats_def three_boats_schedule_def host_def)

text \<open>
  Claim C6. In an accepted assignment the number of hosts is strictly between 0
  and \<open>n_boats\<close>: some boat is a host and some boat is not.
\<close>

theorem host_count_strictly_between:
  assumes "accepted p a"
  shows "0 < card {b. b < n_boats p \<and> host a b} \<and> card {b. b < n_boats p \<and> host a b} < n_boats p
         \<and> (\<exists>b<n_boats p. host a b) \<and> (\<exists>b<n_boats p. \<not> host a b)"
proof -
  from assms have len: "length (hosts a) = n_boats p" and c8: "c8_some_host a"
    and c9: "c9_not_all_hosts p a"
    by (simp_all add: accepted_def shaped_def)
  let ?H = "{b. b < n_boats p \<and> host a b}"
  from c8 len have pos: "0 < card ?H"
    by (simp add: c8_some_host_def count_true host_def)
  from c9 len have less: "card ?H < n_boats p"
    by (simp add: c9_not_all_hosts_def count_true host_def)
  from pos have "?H \<noteq> {}" by (metis card.empty less_numeral_extra(3))
  then have some: "\<exists>b<n_boats p. host a b" by blast
  have "\<exists>b<n_boats p. \<not> host a b"
  proof (rule ccontr)
    assume "\<not> (\<exists>b<n_boats p. \<not> host a b)"
    then have "?H = {..<n_boats p}" by auto
    with less show False by simp
  qed
  with pos less some show ?thesis by simp
qed

theorem host_count_strictly_between_witness:
  "0 < card {b. b < n_boats three_boats \<and> host three_boats_schedule b} \<and>
   card {b. b < n_boats three_boats \<and> host three_boats_schedule b} < n_boats three_boats \<and>
   (\<exists>b<n_boats three_boats. host three_boats_schedule b) \<and>
   (\<exists>b<n_boats three_boats. \<not> host three_boats_schedule b)"
  by (rule host_count_strictly_between [OF three_boats_accepted])

section \<open>The result of the solve\<close>

text \<open>
  Claim C7. When some assignment is accepted, the solve returns an accepted
  assignment whose objective value, the number of boats that are not hosts, is
  the greatest one over all accepted assignments. Any accepted assignment of
  greatest objective value has that same number of guests, so two runs on the
  same instance give the same guest count whichever optimal assignment each
  run ends with.
\<close>

theorem solve_returns_maximum_guest_count:
  assumes "accepted p a0"
  shows "\<exists>a. solve p = Some a \<and> accepted p a \<and>
           objective a = int (card {b. b < n_boats p \<and> \<not> host a b}) \<and>
           objective a = Max (objective ` {a'. accepted p a'}) \<and>
           (\<forall>r. accepted p r \<and> (\<forall>a'. accepted p a' \<longrightarrow> objective a' \<le> objective r)
                 \<longrightarrow> objective r = objective a)"
proof -
  from assms obtain a where s: "solve p = Some a" by (rule solve_feasible)
  from solve_Some [OF s] have acc: "accepted p a"
    and best: "\<And>a'. accepted p a' \<Longrightarrow> objective a' \<le> objective a"
    by simp_all
  from acc have "shaped p a" by (simp add: accepted_def)
  then have count: "objective a = int (card {b. b < n_boats p \<and> \<not> host a b})"
    by (rule objective_counts_guests)
  have "Max (objective ` {a'. accepted p a'}) = objective a"
  proof (rule Max_eqI)
    show "finite (objective ` {a'. accepted p a'})" using finite_accepted by simp
    show "y \<le> objective a" if "y \<in> objective ` {a'. accepted p a'}" for y
      using that best by auto
    show "objective a \<in> objective ` {a'. accepted p a'}" using acc by simp
  qed
  moreover have "objective r = objective a"
    if "accepted p r" "\<forall>a'. accepted p a' \<longrightarrow> objective a' \<le> objective r" for r
    using that acc best [of r] by (simp add: order_antisym)
  ultimately show ?thesis using s acc count by auto
qed

theorem solve_returns_maximum_guest_count_witness:
  "\<exists>a. solve three_boats = Some a \<and> accepted three_boats a \<and>
         objective a = int (card {b. b < n_boats three_boats \<and> \<not> host a b}) \<and>
         objective a = Max (objective ` {a'. accepted three_boats a'}) \<and>
         (\<forall>r. accepted three_boats r \<and>
               (\<forall>a'. accepted three_boats a' \<longrightarrow> objective a' \<le> objective r)
               \<longrightarrow> objective r = objective a)"
  by (rule solve_returns_maximum_guest_count [OF three_boats_accepted])

section \<open>Ill-formed and boundary instances\<close>




text \<open>
  Claim C9 says that every instance of two boats in which one boat cannot hold
  both crews is reported infeasible. In \<open>two_boats\<close> boat 1 holds only its own
  crew, yet boat 0 can hold both crews: the solve makes boat 0 the host and
  returns a schedule.
\<close>

theorem one_small_boat_still_feasible:
  "n_boats two_boats = 2 \<and>
   capacity two_boats ! 1 < crew_size two_boats ! 1 + crew_size two_boats ! 0 \<and>
   yachtclub two_boats = Inr (Solution_found two_boats_schedule)"
proof -
  have "2 \<le> n_boats two_boats" by (simp add: two_boats_def)
  then have "yachtclub two_boats = Inr (Solution_found two_boats_schedule)"
    by (simp add: yachtclub_solves two_boats_solve)
  then show ?thesis by (simp add: two_boats_def)
qed

text \<open>
  Claim C9, amended. Every instance of two boats in which neither boat can hold
  both crews is reported infeasible.
\<close>

theorem two_boats_neither_can_host_unsat:
  assumes n: "n_boats p = 2"
    and c0: "capacity p ! 0 < crew_size p ! 0 + crew_size p ! 1"
    and c1: "capacity p ! 1 < crew_size p ! 1 + crew_size p ! 0"
  shows "yachtclub p = Inr No_solution"
proof -
  have "\<not> accepted p a" for a
  proof
    assume acc: "accepted p a"
    from accepted_some_host [OF acc] obtain h where h: "h < n_boats p" "host a h" by blast
    from accepted_some_guest [OF acc] obtain g where g: "g < n_boats p" "\<not> host a g" by blast
    from h g have ne: "g \<noteq> h" by auto
    from accepted_pair_visit [OF acc g(1) h(1) ne g(2) h(2)]
    obtain t where t: "t < available_halfhours p" "boats a ! t ! g ! h" by blast
    from accepted_capacity [OF acc t(1) h(1)]
    have cap: "(\<Sum>i<2. visit a t i h * crew_size p ! i) + crew_size p ! h \<le> capacity p ! h"
      and self: "\<not> boats a ! t ! h ! h"
      by (simp_all add: n)
    from h g ne n consider "h = 0" "g = 1" | "h = 1" "g = 0" by force
    then show False
    proof cases
      case 1
      with cap self t(2) c0 show False
        by (simp add: lessThan_nat_numeral lessThan_Suc visit_def)
    next
      case 2
      with cap self t(2) c1 show False
        by (simp add: lessThan_nat_numeral lessThan_Suc visit_def)
    qed
  qed
  then show ?thesis using n by (simp add: yachtclub_No_solution_iff)
qed

theorem two_boats_neither_can_host_unsat_witness:
  "yachtclub two_small_boats = Inr No_solution"
  by (rule two_boats_neither_can_host_unsat) (simp_all add: two_small_boats_def)

section \<open>Monotonicity in the capacities\<close>

text \<open>
  Claim C10. Raising the capacity of one boat, with the crew sizes, the other
  capacities and the number of periods unchanged, never lowers the optimum:
  when the solve returns an assignment for the original instance, it returns
  one for the enlarged instance too, with at least as many guests.
\<close>

theorem larger_capacity_never_lowers_optimum:
  assumes "well_formed p" and "b < n_boats p" and "capacity p ! b \<le> c"
    and "solve p = Some a"
  shows "\<exists>a'. solve (p\<lparr>capacity := (capacity p)[b := c]\<rparr>) = Some a' \<and>
              objective a \<le> objective a'"
proof -
  let ?q = "p\<lparr>capacity := (capacity p)[b := c]\<rparr>"
  from solve_Some(1) [OF assms(4)] have "accepted p a" .
  then have acc: "accepted ?q a" using assms(3) by (rule accepted_capacity_mono)
  then obtain a' where s: "solve ?q = Some a'" by (rule solve_feasible)
  from solve_Some(2) [OF s acc] have "objective a \<le> objective a'" .
  with s show ?thesis by blast
qed

theorem larger_capacity_never_lowers_optimum_witness:
  "\<exists>a'. solve (two_boats\<lparr>capacity := (capacity two_boats)[1 := 30]\<rparr>) = Some a' \<and>
         objective two_boats_schedule \<le> objective a'"
  by (rule larger_capacity_never_lowers_optimum [OF _ _ _ two_boats_solve])
     (simp_all add: two_boats_def well_formed_def)

end
